theory Spec2Isabelle
  imports Main
begin

section \<open>Strings\<close>

text \<open>
  A Python \<open>str\<close> is modelled as a \<open>string\<close> (a list of \<open>char\<close>). A \<open>char\<close> stands for
  the code point of the same number, so the model covers the texts whose code points are
  below 256. On that range the character classes of Python are the ones written out below.
\<close>

abbreviation NL :: char where
  "NL \<equiv> CHR 0x0A"

text \<open>The characters \<open>str.strip()\<close> removes: those for which \<open>str.isspace\<close> holds.\<close>

definition is_space :: "char \<Rightarrow> bool" where
  "is_space c \<longleftrightarrow>
     (let n = (of_char c :: nat)
      in (9 \<le> n \<and> n \<le> 13) \<or> (28 \<le> n \<and> n \<le> 32) \<or> n = 133 \<or> n = 160)"

text \<open>The characters \<open>\d\<close> matches.\<close>

definition is_digit :: "char \<Rightarrow> bool" where
  "is_digit c \<longleftrightarrow> (let n = (of_char c :: nat) in 48 \<le> n \<and> n \<le> 57)"

text \<open>\<open>s.strip()\<close>\<close>

definition strip :: "string \<Rightarrow> string" where
  "strip s = rev (dropWhile is_space (rev (dropWhile is_space s)))"

text \<open>\<open>s.startswith(p)\<close> and \<open>s.endswith(p)\<close>\<close>

definition startswith :: "string \<Rightarrow> string \<Rightarrow> bool" where
  "startswith s p \<longleftrightarrow> take (length p) s = p"

definition endswith :: "string \<Rightarrow> string \<Rightarrow> bool" where
  "endswith s p \<longleftrightarrow> length p \<le> length s \<and> drop (length s - length p) s = p"

text \<open>\<open>p in s\<close>, for strings\<close>

fun str_in :: "string \<Rightarrow> string \<Rightarrow> bool" where
  "str_in p [] = (p = [])"
| "str_in p (c # cs) = (startswith (c # cs) p \<or> str_in p cs)"

text \<open>\<open>s.split('\n')\<close>: the pieces between the newlines, one more than there are newlines.\<close>

fun split_nl_from :: "string \<Rightarrow> string \<Rightarrow> string list" where
  "split_nl_from acc [] = [acc]"
| "split_nl_from acc (c # cs) =
     (if c = NL then acc # split_nl_from [] cs else split_nl_from (acc @ [c]) cs)"

definition split_nl :: "string \<Rightarrow> string list" where
  "split_nl s = split_nl_from [] s"

text \<open>
  \<open>s[2:-2]\<close>: the characters from index 2 up to, not including, index \<open>len(s) - 2\<close>;
  empty when the string has fewer than five characters.
\<close>

definition slice_2_m2 :: "string \<Rightarrow> string" where
  "slice_2_m2 s = drop 2 (take (length s - 2) s)"

section \<open>The regular expressions of the program\<close>

text \<open>
  The three patterns of the program are sequences of single characters, character classes
  under a greedy \<open>+\<close> or a lazy \<open>+?\<close>, and the anchors \<open>^\<close> and \<open>$\<close>. The matcher below is
  the backtracking matcher of Python's \<open>re\<close> on that fragment: it returns the length of the
  first match in the order in which \<open>re\<close> tries the alternatives, at the current position.
\<close>

datatype atom = Lit char | Dot | Digit

datatype rx = One atom | Plus atom | PlusLazy atom | Bol | Eol

fun atom_ok :: "atom \<Rightarrow> char \<Rightarrow> bool" where
  "atom_ok (Lit x) c = (c = x)"
| "atom_ok Dot c = (c \<noteq> NL)"
| "atom_ok Digit c = is_digit c"

text \<open>
  \<open>^\<close> holds at the start of the string and, under \<open>re.MULTILINE\<close>, after each newline;
  the position is given by the character before it (\<open>None\<close> at the start).
  \<open>$\<close> holds at the end of the string and before a newline that ends it; under
  \<open>re.MULTILINE\<close>, before each newline.
\<close>

fun at_bol :: "bool \<Rightarrow> char option \<Rightarrow> bool" where
  "at_bol ml None = True"
| "at_bol ml (Some c) = (ml \<and> c = NL)"

fun at_eol :: "bool \<Rightarrow> string \<Rightarrow> bool" where
  "at_eol ml [] = True"
| "at_eol ml (c # cs) = (c = NL \<and> (ml \<or> cs = []))"

fun rx_match :: "bool \<Rightarrow> rx list \<Rightarrow> char option \<Rightarrow> string \<Rightarrow> nat option" where
  "rx_match ml [] prev s = Some 0"
| "rx_match ml (Bol # rs) prev s = (if at_bol ml prev then rx_match ml rs prev s else None)"
| "rx_match ml (Eol # rs) prev s = (if at_eol ml s then rx_match ml rs prev s else None)"
| "rx_match ml (One a # rs) prev [] = None"
| "rx_match ml (One a # rs) prev (c # cs) =
     (if atom_ok a c then map_option Suc (rx_match ml rs (Some c) cs) else None)"
| "rx_match ml (Plus a # rs) prev [] = None"
| "rx_match ml (Plus a # rs) prev (c # cs) =
     (if atom_ok a c
      then (case rx_match ml (Plus a # rs) (Some c) cs of
              Some n \<Rightarrow> Some (Suc n)
            | None \<Rightarrow> map_option Suc (rx_match ml rs (Some c) cs))
      else None)"
| "rx_match ml (PlusLazy a # rs) prev [] = None"
| "rx_match ml (PlusLazy a # rs) prev (c # cs) =
     (if atom_ok a c
      then (case rx_match ml rs (Some c) cs of
              Some n \<Rightarrow> Some (Suc n)
            | None \<Rightarrow> map_option Suc (rx_match ml (PlusLazy a # rs) (Some c) cs))
      else None)"

text \<open>\<open>re.match(p, s)\<close>, as a truth value: is there a match at the start of \<open>s\<close>.\<close>

definition re_match :: "bool \<Rightarrow> rx list \<Rightarrow> string \<Rightarrow> bool" where
  "re_match ml rs s \<longleftrightarrow> rx_match ml rs None s \<noteq> None"

text \<open>
  The scan that \<open>re.split\<close> and \<open>re.sub\<close> share: the successive leftmost matches, none
  overlapping another, and the text between them. The result alternates text outside a
  match (\<open>False\<close>) and a match (\<open>True\<close>), first and last a text outside. Every pattern of
  the program consumes a character, so the rule of \<open>re\<close> for empty matches never applies:
  a match of length 0 counts as none here.
\<close>

fun re_scan :: "bool \<Rightarrow> rx list \<Rightarrow> char option \<Rightarrow> string \<Rightarrow> string \<Rightarrow> (bool \<times> string) list" where
  "re_scan ml rs prev acc [] = [(False, acc)]"
| "re_scan ml rs prev acc (c # cs) =
     (case rx_match ml rs prev (c # cs) of
        Some (Suc n) \<Rightarrow>
          (False, acc) # (True, c # take n cs)
            # re_scan ml rs (Some (last (c # take n cs))) [] (drop n cs)
      | _ \<Rightarrow> re_scan ml rs (Some c) (acc @ [c]) cs)"

text \<open>\<open>re.split(p, s)\<close> for a pattern \<open>p\<close> that is one capturing group: the matches are kept.\<close>

definition re_split :: "bool \<Rightarrow> rx list \<Rightarrow> string \<Rightarrow> string list" where
  "re_split ml rs s = map snd (re_scan ml rs None [] s)"

text \<open>\<open>re.sub(p, repl, s)\<close>\<close>

definition re_sub :: "bool \<Rightarrow> rx list \<Rightarrow> string \<Rightarrow> string \<Rightarrow> string" where
  "re_sub ml rs repl s =
     concat (map (\<lambda>(is_match, t). if is_match then repl else t) (re_scan ml rs None [] s))"

text \<open>\<open>(\*\*.+?\*\*)\<close>\<close>

definition bold_rx :: "rx list" where
  "bold_rx = [One (Lit CHR ''*''), One (Lit CHR ''*''), PlusLazy Dot,
              One (Lit CHR ''*''), One (Lit CHR ''*'')]"

text \<open>\<open>(^#+.+$)\<close>, used with \<open>re.MULTILINE\<close>\<close>

definition heading_rx :: "rx list" where
  "heading_rx = [Bol, Plus (Lit CHR ''#''), Plus Dot, Eol]"

text \<open>\<open>^\d+\. \<close>\<close>

definition numbered_rx :: "rx list" where
  "numbered_rx = [Bol, Plus Digit, One (Lit CHR ''.''), One (Lit CHR '' '')]"

section \<open>The document\<close>

text \<open>
  The document library is outside the program. Of the \<open>Document\<close> object the model keeps
  what the program adds to it: the blocks in the order of the calls. \<open>add_heading(text,
  level)\<close> adds a heading; \<open>add_paragraph()\<close>, \<open>add_paragraph(style='List Bullet')\<close> and
  \<open>add_paragraph(style='List Number')\<close> add a paragraph, a bullet item and a numbered
  item, whose runs are those that \<open>add_run\<close> appends afterwards. The field \<open>bold\<close> of a run
  is true when the program has set \<open>run.bold = True\<close>. The calls of the library are
  taken to succeed.
\<close>

record run =
  run_text :: string
  bold :: bool

datatype list_kind = Bullet | Numbered

datatype block =
    Heading nat string
  | Paragraph "run list"
  | ListItem list_kind "run list"

text \<open>
  A \<open>DocxGenerator\<close>: the document and the list \<open>headings\<close> of the table of contents.
  The font of the style \<open>Normal\<close>, which \<open>__init__\<close> sets, is not part of the model.
\<close>

record DocxGenerator =
  doc :: "block list"
  headings :: "(nat \<times> string) list"

definition DocxGenerator_init :: DocxGenerator where
  "DocxGenerator_init = \<lparr>doc = [], headings = []\<rparr>"

definition add_block :: "DocxGenerator \<Rightarrow> block \<Rightarrow> DocxGenerator" where
  "add_block g b = g\<lparr>doc := doc g @ [b]\<rparr>"

section \<open>The generator\<close>

definition add_heading_to_toc :: "DocxGenerator \<Rightarrow> nat \<Rightarrow> string \<Rightarrow> DocxGenerator" where
  "add_heading_to_toc g level t =
     (if level > 1 then g\<lparr>headings := headings g @ [(level, t)]\<rparr> else g)"

text \<open>One turn of the loop of \<open>_process_text_segments\<close>: the runs of the paragraph, and a segment.\<close>

definition add_segment :: "run list \<Rightarrow> string \<Rightarrow> run list" where
  "add_segment paragraph segment =
     (if startswith segment ''**'' \<and> endswith segment ''**''
      then paragraph @ [\<lparr>run_text = slice_2_m2 segment, bold = True\<rparr>]
      else paragraph @ [\<lparr>run_text = segment, bold = False\<rparr>])"

definition process_text_segments :: "run list \<Rightarrow> string \<Rightarrow> run list" where
  "process_text_segments paragraph t = foldl add_segment paragraph (re_split False bold_rx t)"

text \<open>The values \<open>heading_level\<close> and \<open>heading_text\<close> that \<open>markdown_to_word\<close> computes from a section.\<close>

definition heading_level :: "string \<Rightarrow> nat" where
  "heading_level section = count_list section CHR ''#''"

definition heading_text :: "string \<Rightarrow> string" where
  "heading_text section = strip (filter (\<lambda>c. c \<noteq> CHR ''#'') section)"

text \<open>The truth value of \<open>current_solution_heading\<close>: \<open>None\<close> and the empty string are false.\<close>

fun truthy :: "string option \<Rightarrow> bool" where
  "truthy None = False"
| "truthy (Some s) = (s \<noteq> [])"

text \<open>The branch of a section that starts with \<open>#\<close>.\<close>

definition process_heading ::
  "DocxGenerator \<times> string option \<Rightarrow> string \<Rightarrow> DocxGenerator \<times> string option" where
  "process_heading st section =
     (let g = add_heading_to_toc (fst st) (heading_level section) (heading_text section);
          adjusted_level = min (heading_level section) 2
      in if str_in ''Solution'' (heading_text section)
         then (add_block g (Heading adjusted_level (heading_text section)),
               Some (heading_text section))
         else if str_in ''How It Works'' (heading_text section) \<and> truthy (snd st)
         then (add_block g (Heading 3 (heading_text section)), snd st)
         else (add_block g (Heading adjusted_level (heading_text section)), snd st))"

text \<open>One turn of the loop over the lines of a section that does not start with \<open>#\<close>.\<close>

definition process_line :: "DocxGenerator \<Rightarrow> string \<Rightarrow> DocxGenerator" where
  "process_line g line =
     (if strip line = [] then g
      else if startswith (strip line) ''- ''
      then add_block g (ListItem Bullet (process_text_segments [] (drop 2 line)))
      else if re_match False numbered_rx (strip line)
      then add_block g
             (ListItem Numbered (process_text_segments [] (re_sub False numbered_rx [] line)))
      else add_block g (Paragraph (process_text_segments [] line)))"

text \<open>
  One turn of the loop over the sections. The state is the generator and the local
  variable \<open>current_solution_heading\<close>.
\<close>

definition process_section ::
  "DocxGenerator \<times> string option \<Rightarrow> string \<Rightarrow> DocxGenerator \<times> string option" where
  "process_section st section =
     (if strip section = [] then st
      else if startswith section ''#'' then process_heading st section
      else (foldl process_line (fst st) (split_nl section), snd st))"

definition run_sections ::
  "DocxGenerator \<times> string option \<Rightarrow> string list \<Rightarrow> DocxGenerator \<times> string option" where
  "run_sections st sections = foldl process_section st sections"

definition markdown_to_word :: "DocxGenerator \<Rightarrow> string \<Rightarrow> DocxGenerator" where
  "markdown_to_word g markdown_text =
     fst (run_sections (g, None) (re_split True heading_rx markdown_text))"

text \<open>A section that \<open>markdown_to_word\<close> handles as a heading.\<close>

definition is_heading :: "string \<Rightarrow> bool" where
  "is_heading section \<longleftrightarrow> strip section \<noteq> [] \<and> startswith section ''#''"

text \<open>
  The nominal level of the specification: the number of leading \<open>#\<close> of a heading line,
  the depth as it is written. The program does not compute it; it is what
  \<open>heading_level\<close> is compared with.
\<close>

definition nominal_level :: "string \<Rightarrow> nat" where
  "nominal_level line = length (takeWhile (\<lambda>c. c = CHR ''#'') line)"

text \<open>The first line of a text: the characters before its first newline.\<close>

abbreviation line_of :: "string \<Rightarrow> string" where
  "line_of s \<equiv> takeWhile (\<lambda>c. c \<noteq> NL) s"

section \<open>The scan keeps the text\<close>

lemma re_scan_concat: "concat (map snd (re_scan ml rs prev acc s)) = acc @ s"
  by (induction ml rs prev acc s rule: re_scan.induct)
    (auto split: option.splits nat.splits)

lemma re_split_concat: "concat (re_split ml rs s) = s"
  by (simp add: re_split_def re_scan_concat)

section \<open>What the heading pattern matches\<close>

text \<open>
  At the start of a line, \<open>(^#+.+$)\<close> matches the line when it starts with \<open>#\<close> and has two
  characters or more, and nothing otherwise. So every match that the split of a text
  yields is one line that starts with \<open>#\<close>; a line that is a single \<open>#\<close> is none.
\<close>

lemma at_eol_line: "at_eol True s \<longleftrightarrow> line_of s = []"
  by (cases s) simp_all

lemma dot_eol_match:
  "rx_match True [Plus Dot, Eol] prev s
     = (if line_of s = [] then None else Some (length (line_of s)))"
proof (induction s arbitrary: prev)
  case Nil
  show ?case by simp
next
  case (Cons c cs)
  show ?case
    using Cons.IH [of "Some c"] by (simp add: at_eol_line)
qed

lemma hash_dot_eol_match:
  "rx_match True [Plus (Lit CHR ''#''), Plus Dot, Eol] prev s
     = (if startswith s ''#'' \<and> 2 \<le> length (line_of s)
        then Some (length (line_of s)) else None)"
proof (induction s arbitrary: prev)
  case Nil
  show ?case by (simp add: startswith_def)
next
  case (Cons c cs)
  show ?case
    using Cons.IH [of "Some c"] dot_eol_match [of "Some c" cs]
    by (cases cs) (auto simp: startswith_def)
qed

lemma heading_rx_match:
  "rx_match True heading_rx prev s
     = (if at_bol True prev \<and> startswith s ''#'' \<and> 2 \<le> length (line_of s)
        then Some (length (line_of s)) else None)"
  by (simp add: heading_rx_def hash_dot_eol_match)

lemma heading_scan_matches_aux:
  "(True, m) \<in> set (re_scan ml rs prev acc s) \<Longrightarrow> ml \<Longrightarrow> rs = heading_rx
     \<Longrightarrow> startswith m ''#'' \<and> NL \<notin> set m \<and> 2 \<le> length m"
proof (induction ml rs prev acc s rule: re_scan.induct)
  case (1 ml rs prev acc)
  then show ?case by simp
next
  case (2 ml rs prev acc c cs)
  note ml = \<open>ml\<close> and rs = \<open>rs = heading_rx\<close>
  show ?case
  proof (cases "at_bol True prev \<and> startswith (c # cs) ''#'' \<and> 2 \<le> length (line_of (c # cs))")
    case True
    then have c: "c = CHR ''#''" by (simp add: startswith_def)
    then obtain n where n: "length (line_of (c # cs)) = Suc n" "n = length (line_of cs)"
      by simp
    have mt: "rx_match ml rs prev (c # cs) = Some (Suc n)"
      using True n ml rs by (simp add: heading_rx_match)
    have tk: "c # take n cs = line_of (c # cs)"
      using c n takeWhile_eq_take [of "\<lambda>c. c \<noteq> NL" cs] by simp
    have "m = c # take n cs \<or> (True, m) \<in> set (re_scan ml rs
             (Some (last (c # take n cs))) [] (drop n cs))"
      using "2.prems"(1) mt by simp
    then show ?thesis
    proof
      assume "m = c # take n cs"
      then have "m = line_of (c # cs)" using tk by simp
      moreover have "NL \<notin> set (line_of (c # cs))"
        using set_takeWhileD [of NL "\<lambda>c. c \<noteq> NL" "c # cs"] by blast
      ultimately show ?thesis using True c by (simp add: startswith_def)
    next
      assume "(True, m) \<in> set (re_scan ml rs
             (Some (last (c # take n cs))) [] (drop n cs))"
      then show ?thesis using "2.IH"(3) [OF mt] ml rs by simp
    qed
  next
    case False
    then have mt: "rx_match ml rs prev (c # cs) = None"
      using ml rs by (simp add: heading_rx_match)
    then have "(True, m) \<in> set (re_scan ml rs (Some c) (acc @ [c]) cs)"
      using "2.prems"(1) by simp
    then show ?thesis using "2.IH"(1) [OF mt] ml rs by simp
  qed
qed

lemma heading_scan_matches:
  "(True, m) \<in> set (re_scan True heading_rx prev acc s)
     \<Longrightarrow> startswith m ''#'' \<and> NL \<notin> set m \<and> 2 \<le> length m"
  using heading_scan_matches_aux [of m True heading_rx prev acc s] by simp

section \<open>The generator extends its document and its list of headings\<close>

lemma doc_DocxGenerator_init: "doc DocxGenerator_init = []"
  by (simp add: DocxGenerator_init_def)

lemma headings_DocxGenerator_init: "headings DocxGenerator_init = []"
  by (simp add: DocxGenerator_init_def)

lemma doc_add_block: "doc (add_block g b) = doc g @ [b]"
  by (simp add: add_block_def)

lemma headings_add_block: "headings (add_block g b) = headings g"
  by (simp add: add_block_def)

lemma doc_add_heading_to_toc: "doc (add_heading_to_toc g l t) = doc g"
  by (simp add: add_heading_to_toc_def)

lemma headings_add_heading_to_toc:
  "headings (add_heading_to_toc g l t) = headings g @ (if 1 < l then [(l, t)] else [])"
  by (simp add: add_heading_to_toc_def)

lemma process_line_doc:
  "doc (process_line g line) = doc g @ doc (process_line DocxGenerator_init line)"
  by (simp add: process_line_def doc_add_block doc_DocxGenerator_init)

lemma process_line_headings: "headings (process_line g line) = headings g"
  by (simp add: process_line_def headings_add_block)

lemma foldl_process_line_headings: "headings (foldl process_line g ls) = headings g"
  by (induction ls arbitrary: g) (simp_all add: process_line_headings)

lemma foldl_process_line_doc:
  "doc (foldl process_line g ls) = doc g @ doc (foldl process_line DocxGenerator_init ls)"
proof (induction ls arbitrary: g)
  case Nil
  show ?case by (simp add: doc_DocxGenerator_init)
next
  case (Cons l ls)
  have "doc (foldl process_line g (l # ls))
      = doc (process_line g l) @ doc (foldl process_line DocxGenerator_init ls)"
    using Cons.IH [of "process_line g l"] by simp
  also have "\<dots> = doc g @ doc (process_line DocxGenerator_init l)
                      @ doc (foldl process_line DocxGenerator_init ls)"
    using process_line_doc [of g l] by simp
  also have "doc (process_line DocxGenerator_init l)
                      @ doc (foldl process_line DocxGenerator_init ls)
      = doc (foldl process_line DocxGenerator_init (l # ls))"
    using Cons.IH [of "process_line DocxGenerator_init l"] by simp
  finally show ?case .
qed

lemma process_heading_doc:
  "doc (fst (process_heading (g, c) s)) = doc g @ [Heading
     (if str_in ''Solution'' (heading_text s) then min (heading_level s) 2
      else if str_in ''How It Works'' (heading_text s) \<and> truthy c then 3
      else min (heading_level s) 2) (heading_text s)]"
  by (simp add: process_heading_def Let_def doc_add_block doc_add_heading_to_toc)

lemma process_heading_headings:
  "headings (fst (process_heading (g, c) s))
     = headings g @ (if 1 < heading_level s then [(heading_level s, heading_text s)] else [])"
  by (simp add: process_heading_def Let_def headings_add_block headings_add_heading_to_toc)

lemma process_heading_snd:
  "snd (process_heading (g, c) s)
     = (if str_in ''Solution'' (heading_text s) then Some (heading_text s) else c)"
  by (simp add: process_heading_def Let_def)

lemma process_section_snd:
  "snd (process_section (g, c) s) = snd (process_section (DocxGenerator_init, c) s)"
  by (simp add: process_section_def process_heading_snd)

lemma process_section_doc:
  "doc (fst (process_section (g, c) s))
     = doc g @ doc (fst (process_section (DocxGenerator_init, c) s))"
  using foldl_process_line_doc [of g "split_nl s"]
  by (simp add: process_section_def process_heading_doc doc_DocxGenerator_init)

lemma process_section_headings:
  "headings (fst (process_section (g, c) s))
     = headings g @ (if is_heading s \<and> 1 < heading_level s
                     then [(heading_level s, heading_text s)] else [])"
  by (simp add: process_section_def is_heading_def process_heading_headings
      foldl_process_line_headings)

lemma run_sections_Nil: "run_sections st [] = st"
  by (simp add: run_sections_def)

lemma run_sections_Cons: "run_sections st (s # ss) = run_sections (process_section st s) ss"
  by (simp add: run_sections_def)

lemma run_sections_append:
  "run_sections st (xs @ ys) = run_sections (run_sections st xs) ys"
  by (simp add: run_sections_def)

lemma run_sections_snd:
  "snd (run_sections (g, c) ss) = snd (run_sections (DocxGenerator_init, c) ss)"
proof (induction ss arbitrary: g c)
  case Nil
  show ?case by (simp add: run_sections_Nil)
next
  case (Cons s ss)
  obtain g1 c1 where p1: "process_section (g, c) s = (g1, c1)"
    by (cases "process_section (g, c) s")
  obtain g2 c2 where p2: "process_section (DocxGenerator_init, c) s = (g2, c2)"
    by (cases "process_section (DocxGenerator_init, c) s")
  have c: "c1 = c2"
    using process_section_snd [of g c s] p1 p2 by simp
  show ?case
    using Cons.IH [of g1 c1] Cons.IH [of g2 c2] p1 p2 c
    by (simp add: run_sections_Cons)
qed

lemma run_sections_doc:
  "doc (fst (run_sections (g, c) ss))
     = doc g @ doc (fst (run_sections (DocxGenerator_init, c) ss))"
proof (induction ss arbitrary: g c)
  case Nil
  show ?case by (simp add: run_sections_Nil doc_DocxGenerator_init)
next
  case (Cons s ss)
  obtain g1 c1 where p1: "process_section (g, c) s = (g1, c1)"
    by (cases "process_section (g, c) s")
  obtain g2 c2 where p2: "process_section (DocxGenerator_init, c) s = (g2, c2)"
    by (cases "process_section (DocxGenerator_init, c) s")
  have c: "c1 = c2"
    using process_section_snd [of g c s] p1 p2 by simp
  have d: "doc g1 = doc g @ doc g2"
    using process_section_doc [of g c s] p1 p2 by simp
  show ?case
    using Cons.IH [of g1 c1] Cons.IH [of g2 c2] p1 p2 c d
    by (simp add: run_sections_Cons)
qed

lemma run_sections_headings:
  "headings (fst (run_sections (g, c) ss))
     = headings g @ map (\<lambda>s. (heading_level s, heading_text s))
                      (filter (\<lambda>s. is_heading s \<and> 1 < heading_level s) ss)"
proof (induction ss arbitrary: g c)
  case Nil
  show ?case by (simp add: run_sections_Nil)
next
  case (Cons s ss)
  obtain g1 c1 where p1: "process_section (g, c) s = (g1, c1)"
    by (cases "process_section (g, c) s")
  have h: "headings g1 = headings g @ (if is_heading s \<and> 1 < heading_level s
                     then [(heading_level s, heading_text s)] else [])"
    using process_section_headings [of g c s] p1 by simp
  show ?case
    using Cons.IH [of g1 c1] p1 h
    by (simp add: run_sections_Cons)
qed

lemma heading_level_pos: "startswith s ''#'' \<Longrightarrow> 1 \<le> heading_level s"
  by (cases s) (auto simp: startswith_def heading_level_def)


lemma str_in_nonempty: "str_in p s \<Longrightarrow> p \<noteq> [] \<Longrightarrow> s \<noteq> []"
  by (cases s) simp_all

lemma process_section_heading_doc:
  "is_heading s \<Longrightarrow>
   doc (fst (process_section (g, c) s)) = doc g @ [Heading
     (if str_in ''Solution'' (heading_text s) then min (heading_level s) 2
      else if str_in ''How It Works'' (heading_text s) \<and> truthy c then 3
      else min (heading_level s) 2) (heading_text s)]"
  by (simp add: process_section_def is_heading_def process_heading_doc)

lemma process_section_heading_snd:
  "is_heading s \<Longrightarrow>
   snd (process_section (g, c) s)
     = (if str_in ''Solution'' (heading_text s) then Some (heading_text s) else c)"
  by (simp add: process_section_def is_heading_def process_heading_snd)

lemma process_section_truthy: "truthy c \<Longrightarrow> truthy (snd (process_section (g, c) s))"
  by (auto simp: process_section_def process_heading_snd dest: str_in_nonempty)

lemma run_sections_truthy: "truthy c \<Longrightarrow> truthy (snd (run_sections (g, c) ss))"
proof (induction ss arbitrary: g c)
  case Nil
  then show ?case by (simp add: run_sections_Nil)
next
  case (Cons s ss)
  obtain g1 c1 where p1: "process_section (g, c) s = (g1, c1)"
    by (cases "process_section (g, c) s")
  have "truthy c1"
    using process_section_truthy [OF Cons.prems, of g s] p1 by simp
  then show ?case
    using Cons.IH [of c1 g1] p1 by (simp add: run_sections_Cons)
qed

lemma markdown_to_word_doc:
  "doc (markdown_to_word g t) = doc g @ doc (markdown_to_word DocxGenerator_init t)"
  using run_sections_doc [of g None "re_split True heading_rx t"]
  by (simp add: markdown_to_word_def)

lemma markdown_to_word_headings:
  "headings (markdown_to_word g t) = headings g @ headings (markdown_to_word DocxGenerator_init t)"
  using run_sections_headings [of g None "re_split True heading_rx t"]
    run_sections_headings [of DocxGenerator_init None "re_split True heading_rx t"]
  by (simp add: markdown_to_word_def headings_DocxGenerator_init)

section \<open>Segmentation\<close>

text \<open>
  C7. A line that is a single \<open>#\<close> is not a match of \<open>(^#+.+$)\<close>, so it is not a section of
  its own; it stays in the text around it. When that text starts with it, the section
  starts with \<open>#\<close> and \<open>markdown_to_word\<close> handles the whole section as a heading: the text
  \<open>#\<close>, newline, \<open>foo\<close> is one section of two lines, and becomes the heading \<open>foo\<close> of level 1.
\<close>

theorem lone_hash_section_dispatched_as_heading:
  "re_split True heading_rx ''#\<newline>foo'' = [''#\<newline>foo'']
   \<and> is_heading ''#\<newline>foo''
   \<and> split_nl ''#\<newline>foo'' = [''#'', ''foo'']
   \<and> markdown_to_word DocxGenerator_init ''#\<newline>foo''
       = \<lparr>doc = [Heading 1 ''foo''], headings = []\<rparr>"
  by code_simp

section \<open>Headings\<close>

text \<open>
  C2. \<open>heading_level\<close> is the number of all \<open>#\<close> in the section, not of the leading ones:
  the heading \<open># C# guide\<close> has one leading \<open>#\<close> and gets level 2, in the document and in the
  table of contents. Its text is the section without any \<open>#\<close>, stripped.
\<close>

theorem heading_level_counts_every_hash:
  "heading_level ''# C# guide'' = 2
   \<and> length (takeWhile (\<lambda>c. c = CHR ''#'') ''# C# guide'') = 1
   \<and> markdown_to_word DocxGenerator_init ''# C# guide''
       = \<lparr>doc = [Heading 2 ''C guide''], headings = [(2, ''C guide'')]\<rparr>"
  by code_simp

text \<open>
  The override is sequential. A section handled as a heading whose text contains
  \<open>Solution\<close> is recorded in \<open>current_solution_heading\<close> and gets the smaller of
  \<open>heading_level\<close> and 2, whatever the state was and also when its text contains
  \<open>How It Works\<close> too. Whatever sections come between, a later heading of the same
  conversion whose text contains \<open>How It Works\<close> and not \<open>Solution\<close> gets level 3, whatever
  its own level.
\<close>

lemma solution_then_how_it_works:
  assumes s1: "is_heading s1" "str_in ''Solution'' (heading_text s1)"
    and s2: "is_heading s2" "str_in ''How It Works'' (heading_text s2)"
      "\<not> str_in ''Solution'' (heading_text s2)"
  shows "snd (run_sections st (pre @ [s1])) = Some (heading_text s1)
    \<and> doc (fst (run_sections st (pre @ [s1])))
        = doc (fst (run_sections st pre))
          @ [Heading (min (heading_level s1) 2) (heading_text s1)]
    \<and> doc (fst (run_sections st (pre @ s1 # mid @ [s2])))
        = doc (fst (run_sections st (pre @ s1 # mid))) @ [Heading 3 (heading_text s2)]"
proof -
  obtain g0 c0 where st0: "run_sections st pre = (g0, c0)"
    by (cases "run_sections st pre")
  have step1: "run_sections st (pre @ [s1]) = process_section (g0, c0) s1"
    by (simp add: run_sections_append run_sections_Cons run_sections_Nil st0)
  have a: "snd (run_sections st (pre @ [s1])) = Some (heading_text s1)"
    using process_section_heading_snd [OF s1(1), of g0 c0] s1(2) step1 by simp
  have b: "doc (fst (run_sections st (pre @ [s1])))
        = doc (fst (run_sections st pre))
          @ [Heading (min (heading_level s1) 2) (heading_text s1)]"
    using process_section_heading_doc [OF s1(1), of g0 c0] s1(2) step1 st0 by simp
  obtain g1 where st1: "run_sections st (pre @ [s1]) = (g1, Some (heading_text s1))"
    using a by (cases "run_sections st (pre @ [s1])") simp
  have t1: "truthy (Some (heading_text s1))"
    using str_in_nonempty [OF s1(2)] by simp
  obtain g2 c2 where st2: "run_sections st (pre @ s1 # mid) = (g2, c2)"
    by (cases "run_sections st (pre @ s1 # mid)")
  have "run_sections st (pre @ s1 # mid) = run_sections (g1, Some (heading_text s1)) mid"
    using run_sections_append [of st "pre @ [s1]" mid] st1 by simp
  then have "run_sections (g1, Some (heading_text s1)) mid = (g2, c2)"
    using st2 by simp
  then have t2: "truthy c2"
    using run_sections_truthy [OF t1, of g1 mid] by simp
  have step2: "run_sections st (pre @ s1 # mid @ [s2]) = process_section (g2, c2) s2"
    using run_sections_append [of st "pre @ s1 # mid" "[s2]"] st2
    by (simp add: run_sections_Cons run_sections_Nil)
  have c: "doc (fst (run_sections st (pre @ s1 # mid @ [s2])))
        = doc (fst (run_sections st (pre @ s1 # mid))) @ [Heading 3 (heading_text s2)]"
    using process_section_heading_doc [OF s2(1), of g2 c2] s2(2,3) t2 step2 st2 by simp
  show ?thesis using a b c by simp
qed

text \<open>The rule at the sections \<open># Title\<close>, \<open>## Solution\<close>, \<open># Other\<close>, \<open>#### How It Works\<close>.\<close>

lemma solution_then_how_it_works_witness:
  "is_heading ''## Solution'' \<and> str_in ''Solution'' (heading_text ''## Solution'')
   \<and> is_heading ''#### How It Works''
   \<and> str_in ''How It Works'' (heading_text ''#### How It Works'')
   \<and> \<not> str_in ''Solution'' (heading_text ''#### How It Works'')
   \<and> doc (fst (run_sections (DocxGenerator_init, None)
                 ([''# Title''] @ ''## Solution'' # [''# Other''] @ [''#### How It Works''])))
       = doc (fst (run_sections (DocxGenerator_init, None)
                 ([''# Title''] @ ''## Solution'' # [''# Other'']))) @ [Heading 3 ''How It Works'']"
proof -
  have h1: "is_heading ''## Solution''" by code_simp
  have h2: "str_in ''Solution'' (heading_text ''## Solution'')" by code_simp
  have h3: "is_heading ''#### How It Works''" by code_simp
  have h4: "str_in ''How It Works'' (heading_text ''#### How It Works'')" by code_simp
  have h5: "\<not> str_in ''Solution'' (heading_text ''#### How It Works'')" by code_simp
  have h6: "heading_text ''#### How It Works'' = ''How It Works''" by code_simp
  show ?thesis
    using solution_then_how_it_works [OF h1 h2 h3 h4 h5,
        of "(DocxGenerator_init, None)" "[''# Title'']" "[''# Other'']"] h1 h2 h3 h4 h5 h6
    by simp
qed

text \<open>
  C3. The level that a \<open>Solution\<close> heading keeps is the smaller of \<open>heading_level\<close> and 2,
  and \<open>heading_level\<close> counts every \<open>#\<close> of the section: the heading \<open># Solution in C#\<close>
  has nominal level 1, its text contains \<open>Solution\<close>, and it gets display level 2 where
  the smaller of its nominal level and 2 is 1. The order of the override is as stated:
  after \<open>## Solution\<close>, the heading \<open>#### How It Works\<close> gets level 3.
\<close>

theorem solution_heading_level_counts_text_hashes:
  "nominal_level ''# Solution in C#'' = 1
   \<and> min (nominal_level ''# Solution in C#'') 2 = 1
   \<and> str_in ''Solution'' (heading_text ''# Solution in C#'')
   \<and> doc (markdown_to_word DocxGenerator_init ''# Solution in C#'')
       = [Heading 2 ''Solution in C'']
   \<and> doc (markdown_to_word DocxGenerator_init ''## Solution\<newline>#### How It Works'')
       = [Heading 2 ''Solution'', Heading 3 ''How It Works'']"
  by code_simp

lemma is_heading_level_pos: "is_heading s \<Longrightarrow> 1 \<le> heading_level s"
  using heading_level_pos [of s] by (simp add: is_heading_def)

lemma process_line_no_heading: "Heading l t \<notin> set (doc (process_line DocxGenerator_init line))"
  by (simp add: process_line_def doc_add_block doc_DocxGenerator_init)

lemma foldl_process_line_no_heading:
  "Heading l t \<notin> set (doc (foldl process_line DocxGenerator_init ls))"
proof (induction ls rule: rev_induct)
  case Nil
  show ?case by (simp add: doc_DocxGenerator_init)
next
  case (snoc x xs)
  show ?case
    using snoc.IH process_line_no_heading [of l t x]
      process_line_doc [of "foldl process_line DocxGenerator_init xs" x]
    by simp
qed

lemma process_section_levels:
  "Heading l t \<in> set (doc (fst (process_section (DocxGenerator_init, c) s)))
     \<Longrightarrow> 1 \<le> l \<and> l \<le> 3"
proof (cases "is_heading s")
  case True
  then have "1 \<le> heading_level s"
    by (rule is_heading_level_pos)
  then show "Heading l t \<in> set (doc (fst (process_section (DocxGenerator_init, c) s)))
     \<Longrightarrow> 1 \<le> l \<and> l \<le> 3"
    using process_section_heading_doc [OF True, of DocxGenerator_init c]
    by (auto simp: doc_DocxGenerator_init split: if_splits)
next
  case False
  then show "Heading l t \<in> set (doc (fst (process_section (DocxGenerator_init, c) s)))
     \<Longrightarrow> 1 \<le> l \<and> l \<le> 3"
    using foldl_process_line_no_heading [of l t "split_nl s"]
    by (auto simp: process_section_def is_heading_def doc_DocxGenerator_init split: if_splits)
qed

lemma run_sections_levels:
  "Heading l t \<in> set (doc (fst (run_sections (DocxGenerator_init, c) ss)))
     \<Longrightarrow> 1 \<le> l \<and> l \<le> 3"
proof (induction ss rule: rev_induct)
  case Nil
  then show ?case by (simp add: run_sections_Nil doc_DocxGenerator_init)
next
  case (snoc x xs)
  obtain g1 c1 where st: "run_sections (DocxGenerator_init, c) xs = (g1, c1)"
    by (cases "run_sections (DocxGenerator_init, c) xs")
  have "run_sections (DocxGenerator_init, c) (xs @ [x]) = process_section (g1, c1) x"
    by (simp add: run_sections_append run_sections_Cons run_sections_Nil st)
  then have "doc (fst (run_sections (DocxGenerator_init, c) (xs @ [x])))
      = doc g1 @ doc (fst (process_section (DocxGenerator_init, c1) x))"
    using process_section_doc [of g1 c1 x] by simp
  then show ?case
    using snoc.prems snoc.IH st process_section_levels [of l t c1 x] by auto
qed

text \<open>
  A section handled as a heading adds one heading, with level 1, 2 or 3: the smaller
  of \<open>heading_level\<close> and 2, or 3 when its text contains \<open>How It Works\<close> and
  \<open>current_solution_heading\<close> is set. So every heading that a conversion adds to the
  document has level 1, 2 or 3, however many \<open>#\<close> the section has.
\<close>

lemma display_level_in_range:
  "(is_heading s \<longrightarrow>
      (\<exists>l. doc (fst (process_section (g, c) s)) = doc g @ [Heading l (heading_text s)]
         \<and> (l = 1 \<or> l = 2 \<or> l = 3)
         \<and> (l = min (heading_level s) 2
              \<or> l = 3 \<and> str_in ''How It Works'' (heading_text s) \<and> truthy c)))
   \<and> (\<exists>bs. doc (markdown_to_word g markdown_text) = doc g @ bs
         \<and> (\<forall>l t. Heading l t \<in> set bs \<longrightarrow> l = 1 \<or> l = 2 \<or> l = 3))"
proof -
  have a: "\<exists>l. doc (fst (process_section (g, c) s)) = doc g @ [Heading l (heading_text s)]
         \<and> (l = 1 \<or> l = 2 \<or> l = 3)
         \<and> (l = min (heading_level s) 2
              \<or> l = 3 \<and> str_in ''How It Works'' (heading_text s) \<and> truthy c)"
    if h: "is_heading s"
  proof -
    have "1 \<le> heading_level s"
      using h by (rule is_heading_level_pos)
    then have "min (heading_level s) 2 = 1 \<or> min (heading_level s) 2 = 2"
      by (auto simp: min_def)
    then show ?thesis
      using process_section_heading_doc [OF h, of g c] by auto
  qed
  have "\<forall>l t. Heading l t \<in> set (doc (markdown_to_word DocxGenerator_init markdown_text))
          \<longrightarrow> l = 1 \<or> l = 2 \<or> l = 3"
    using run_sections_levels [of _ _ None "re_split True heading_rx markdown_text"]
    by (fastforce simp: markdown_to_word_def)
  then have b: "\<exists>bs. doc (markdown_to_word g markdown_text) = doc g @ bs
         \<and> (\<forall>l t. Heading l t \<in> set bs \<longrightarrow> l = 1 \<or> l = 2 \<or> l = 3)"
    using markdown_to_word_doc [of g markdown_text] by blast
  show ?thesis using a b by blast
qed

text \<open>A heading of seven \<open>#\<close> gets level 2.\<close>

lemma display_level_in_range_witness:
  "is_heading ''####### Deep''
   \<and> doc (fst (process_section (DocxGenerator_init, None) ''####### Deep''))
       = [Heading 2 ''Deep'']
   \<and> doc (markdown_to_word DocxGenerator_init ''####### Deep'') = [Heading 2 ''Deep'']
   \<and> Heading 2 ''Deep'' \<in> set (doc (markdown_to_word DocxGenerator_init ''####### Deep''))"
proof -
  have h: "is_heading ''####### Deep''" by code_simp
  have a: "doc (fst (process_section (DocxGenerator_init, None) ''####### Deep''))
       = [Heading 2 ''Deep'']" by code_simp
  have b: "doc (markdown_to_word DocxGenerator_init ''####### Deep'') = [Heading 2 ''Deep'']"
    by code_simp
  show ?thesis
    using display_level_in_range
      [of "''####### Deep''" DocxGenerator_init None "''####### Deep''"] h a b
    by simp
qed

text \<open>
  C8. The display level is 1, 2 or 3, but the default is the smaller of \<open>heading_level\<close>
  and 2, not of the nominal level and 2: the heading \<open># FAQ #1\<close> has nominal level 1, no
  override applies to it (its text contains neither \<open>Solution\<close> nor \<open>How It Works\<close>), and it
  gets display level 2 where the smaller of its nominal level and 2 is 1.
\<close>

theorem display_level_counts_text_hashes:
  "nominal_level ''# FAQ #1'' = 1
   \<and> min (nominal_level ''# FAQ #1'') 2 = 1
   \<and> \<not> str_in ''Solution'' (heading_text ''# FAQ #1'')
   \<and> \<not> str_in ''How It Works'' (heading_text ''# FAQ #1'')
   \<and> doc (markdown_to_word DocxGenerator_init ''# FAQ #1'') = [Heading 2 ''FAQ 1'']"
  by code_simp

section \<open>The table of contents\<close>

text \<open>
  After a conversion the list \<open>headings\<close> is the list before it, followed by one entry
  for each section handled as a heading whose \<open>heading_level\<close> is above 1, in the order
  of the sections and as often as they occur: the entry is \<open>heading_level\<close> and the
  heading text. A heading whose \<open>heading_level\<close> is 1 adds none.
\<close>

lemma toc_registration:
  "headings (markdown_to_word g markdown_text)
     = headings g @ map (\<lambda>s. (heading_level s, heading_text s))
                      (filter (\<lambda>s. is_heading s \<and> 1 < heading_level s)
                         (re_split True heading_rx markdown_text))"
  using run_sections_headings [of g None "re_split True heading_rx markdown_text"]
  by (simp add: markdown_to_word_def)

text \<open>
  C6. The level that decides the entry and that the entry carries is \<open>heading_level\<close>,
  which counts every \<open>#\<close> of the section. The title \<open># F# primer\<close> has nominal level 1 and
  is registered, with level 2, where a heading of nominal level 1 is to add no entry; the
  heading \<open>## Notes on C#\<close> has nominal level 2 and its entry carries level 3.
\<close>

theorem title_with_hash_enters_toc:
  "nominal_level ''# F# primer'' = 1
   \<and> headings (markdown_to_word DocxGenerator_init ''# F# primer'') = [(2, ''F primer'')]
   \<and> nominal_level ''## Notes on C#'' = 2
   \<and> headings (markdown_to_word DocxGenerator_init ''## Notes on C#'')
       = [(3, ''Notes on C'')]"
  by code_simp

text \<open>
  C10. The list \<open>headings\<close> is empty in a new generator and only ever extended at its end:
  \<open>_add_heading_to_toc\<close> appends one entry or none, a line of a body leaves the list as it
  is, a section appends at most one entry, a conversion appends entries to the list it
  finds, and a second conversion on the same generator appends its entries after those of
  the first.
\<close>

theorem toc_append_only:
  "headings DocxGenerator_init = []
   \<and> headings (add_heading_to_toc g level t)
       = headings g @ (if 1 < level then [(level, t)] else [])
   \<and> headings (process_line g line) = headings g
   \<and> (\<exists>es. headings (fst (process_section (g, c) s)) = headings g @ es \<and> length es \<le> 1)
   \<and> (\<exists>es. headings (markdown_to_word g t1) = headings g @ es)
   \<and> headings (markdown_to_word (markdown_to_word g t1) t2)
       = headings g @ headings (markdown_to_word DocxGenerator_init t1)
           @ headings (markdown_to_word DocxGenerator_init t2)"
proof -
  have a: "\<exists>es. headings (fst (process_section (g, c) s)) = headings g @ es \<and> length es \<le> 1"
    using process_section_headings [of g c s] by simp
  have b: "\<exists>es. headings (markdown_to_word g t1) = headings g @ es"
    using markdown_to_word_headings [of g t1] by blast
  have c: "headings (markdown_to_word (markdown_to_word g t1) t2)
       = headings g @ headings (markdown_to_word DocxGenerator_init t1)
           @ headings (markdown_to_word DocxGenerator_init t2)"
    using markdown_to_word_headings [of "markdown_to_word g t1" t2]
      markdown_to_word_headings [of g t1]
    by simp
  show ?thesis
    using a b c headings_DocxGenerator_init headings_add_heading_to_toc [of g level t]
      process_line_headings [of g line]
    by blast
qed

section \<open>Conversions do not share \<open>current_solution_heading\<close>\<close>

text \<open>
  C9. \<open>current_solution_heading\<close> is \<open>None\<close> at the start of each call of
  \<open>markdown_to_word\<close> and is not kept in the generator. The blocks and the entries that a
  conversion adds are those that the same text gives on a new generator, whatever the
  generator held and whatever was converted with it before; a \<open>Solution\<close> heading of one
  conversion does not raise a \<open>How It Works\<close> heading of the next to level 3.
\<close>

theorem conversion_independence:
  "doc (markdown_to_word g t) = doc g @ doc (markdown_to_word DocxGenerator_init t)
   \<and> headings (markdown_to_word g t)
       = headings g @ headings (markdown_to_word DocxGenerator_init t)
   \<and> doc (markdown_to_word (markdown_to_word g t1) t2)
       = doc g @ doc (markdown_to_word DocxGenerator_init t1)
           @ doc (markdown_to_word DocxGenerator_init t2)
   \<and> doc (markdown_to_word (markdown_to_word DocxGenerator_init ''## Solution'')
            ''## How It Works'')
       = [Heading 2 ''Solution'', Heading 2 ''How It Works'']"
proof -
  have a: "doc (markdown_to_word (markdown_to_word g t1) t2)
       = doc g @ doc (markdown_to_word DocxGenerator_init t1)
           @ doc (markdown_to_word DocxGenerator_init t2)"
    using markdown_to_word_doc [of "markdown_to_word g t1" t2] markdown_to_word_doc [of g t1]
    by simp
  have b: "doc (markdown_to_word (markdown_to_word DocxGenerator_init ''## Solution'')
            ''## How It Works'')
       = [Heading 2 ''Solution'', Heading 2 ''How It Works'']"
    by code_simp
  show ?thesis
    using a b markdown_to_word_doc [of g t] markdown_to_word_headings [of g t] by simp
qed

section \<open>Lines of a body\<close>

text \<open>
  C5. The test for a bullet item looks at the stripped line, the content is taken from
  the line as it is, by \<open>line[2:]\<close>: an indented bullet line loses its first two characters
  and keeps the prefix. The line \<open>- item\<close> has the content \<open>item\<close>; indented by two spaces
  it has the content \<open>- item\<close>.
\<close>

theorem indented_bullet_content:
  "doc (process_line DocxGenerator_init ''  - item'')
     = [ListItem Bullet [\<lparr>run_text = ''- item'', bold = False\<rparr>]]
   \<and> doc (process_line DocxGenerator_init ''- item'')
     = [ListItem Bullet [\<lparr>run_text = ''item'', bold = False\<rparr>]]"
  by code_simp

text \<open>
  C4. A segment is made bold when it starts and ends with \<open>**\<close>, whatever its length. The
  line \<open>**\<close>, a marker without a partner, is one segment, which starts and ends with \<open>**\<close>;
  it becomes a bold run with the empty text. The line \<open>**unterminated bold\<close> becomes one
  run with that text, not bold.
\<close>

theorem stray_marker_becomes_bold:
  "re_split False bold_rx ''**'' = [''**'']
   \<and> process_text_segments [] ''**'' = [\<lparr>run_text = [], bold = True\<rparr>]
   \<and> doc (markdown_to_word DocxGenerator_init ''**'')
       = [Paragraph [\<lparr>run_text = [], bold = True\<rparr>]]
   \<and> doc (markdown_to_word DocxGenerator_init ''**unterminated bold'')
       = [Paragraph [\<lparr>run_text = ''**unterminated bold'', bold = False\<rparr>]]"
  by code_simp

text \<open>
  C1. The runs of a block do not always give back the line without its markers and its
  list prefix. The numbered test looks at the stripped line, \<open>re.sub\<close> at the line as it
  is: the indented line \<open> 1. first\<close> becomes a numbered item whose run is the whole line,
  prefix and indentation included, where \<open>1. first\<close> becomes the run \<open>first\<close>.
\<close>

theorem indented_item_keeps_prefix:
  "doc (markdown_to_word DocxGenerator_init '' 1. first'')
     = [ListItem Numbered [\<lparr>run_text = '' 1. first'', bold = False\<rparr>]]
   \<and> doc (markdown_to_word DocxGenerator_init ''1. first'')
     = [ListItem Numbered [\<lparr>run_text = ''first'', bold = False\<rparr>]]"
  by code_simp

end
